theory Spec2Isabelle
  imports Main
begin

section \<open>The circuit breaker of src/index.ts\<close>

text \<open>
  The class \<open>CircuitBreaker\<close> is embedded as a record of its private fields together with
  the part of the JavaScript runtime its methods touch: the queue of pending
  \<open>setTimeout\<close> timers, the observer callbacks that were invoked, and the arguments the
  wrapped function was invoked with. A method is a function from the record to the
  updated record, paired with the value it throws when it can throw.

  A JavaScript \<open>number\<close> is \<open>NaN\<close> or an integer; fractions and the infinities are not
  modelled. The two counters start at 0 and are only incremented, so they are integers.
  \<open>Date.now()\<close> yields whole milliseconds, and every clock reading is a parameter of the
  method that reads it. An observer callback is absent, returns, or throws a value; a
  callback that calls back into the breaker is outside this model, as are calls that
  overlap in time.
\<close>

datatype CircuitState = CLOSED | OPEN | HALF_OPEN

subsection \<open>Numbers\<close>

datatype number = NaN | Num int

text \<open>\<open>a <= b\<close>, \<open>a < b\<close> and \<open>a + b\<close>: a comparison with \<open>NaN\<close> is false.\<close>

fun num_le :: "number \<Rightarrow> number \<Rightarrow> bool" where
  "num_le (Num a) (Num b) = (a \<le> b)"
| "num_le _ _ = False"

fun num_lt :: "number \<Rightarrow> number \<Rightarrow> bool" where
  "num_lt (Num a) (Num b) = (a < b)"
| "num_lt _ _ = False"

fun num_add :: "number \<Rightarrow> number \<Rightarrow> number" where
  "num_add (Num a) (Num b) = Num (a + b)"
| "num_add _ _ = NaN"

subsection \<open>Options, callbacks and errors\<close>

text \<open>A callback \<open>() => void\<close> of the options: not given, returning, or throwing.\<close>

datatype 'e callback = Absent | Returns | Throws 'e

record 'e CircuitBreakerOptions =
  opt_failureThreshold :: "number option"
  opt_successThreshold :: "number option"
  opt_timeout :: "number option"
  opt_onOpen :: "'e callback"
  opt_onClose :: "'e callback"
  opt_onHalfOpen :: "'e callback"

datatype notification = OnOpen | OnClose | OnHalfOpen

text \<open>\<open>new Error(message)\<close> thrown by the constructor.\<close>

datatype config_error = ConfigError string

text \<open>
  What \<open>fire\<close> throws: its own
  \<open>new Error(`Circuit breaker is OPEN. Retry after ${timeUntilRetry} seconds.`)\<close>, kept as
  the number in the message, or a value thrown by the wrapped function or by a callback,
  passed on as it is.
\<close>

datatype 'e fire_error = CircuitOpen number | Thrown 'e

record ('a, 'e) breaker =
  state :: CircuitState
  failureCount :: int
  successCount :: int
  nextAttemptTime :: number
  failureThreshold :: number
  successThreshold :: number
  timeout :: number
  onOpen :: "'e callback"
  onClose :: "'e callback"
  onHalfOpen :: "'e callback"
  timeoutId :: "nat option"
  \<comment> \<open>the runtime: pending timers as (handle, due time), the next unused handle\<close>
  timers :: "(nat \<times> number) list"
  fresh :: nat
  \<comment> \<open>observations: callbacks invoked, argument lists the wrapped function received\<close>
  notified :: "notification list"
  calls :: "'a list"

subsection \<open>Runtime primitives\<close>

text \<open>
  \<open>this.onX?.()\<close>: a callback that is present is invoked, and the call either returns
  (\<open>None\<close>) or throws (\<open>Some\<close> the value).
\<close>

definition notify ::
  "'e callback \<Rightarrow> notification \<Rightarrow> ('a, 'e) breaker \<Rightarrow> 'e option \<times> ('a, 'e) breaker" where
  "notify cb n w =
     (case cb of
        Absent \<Rightarrow> (None, w)
      | Returns \<Rightarrow> (None, w\<lparr>notified := notified w @ [n]\<rparr>)
      | Throws x \<Rightarrow> (Some x, w\<lparr>notified := notified w @ [n]\<rparr>))"

definition clearTimeout :: "nat \<Rightarrow> ('a, 'e) breaker \<Rightarrow> ('a, 'e) breaker" where
  "clearTimeout i w = w\<lparr>timers := filter (\<lambda>(j, due). j \<noteq> i) (timers w)\<rparr>"

text \<open>\<open>this.timeoutId = setTimeout(..., delay)\<close> at clock reading \<open>now\<close>.\<close>

definition setTimeout :: "int \<Rightarrow> number \<Rightarrow> ('a, 'e) breaker \<Rightarrow> ('a, 'e) breaker" where
  "setTimeout now delay w =
     w\<lparr>timers := timers w @ [(fresh w, num_add (Num now) delay)],
       timeoutId := Some (fresh w),
       fresh := Suc (fresh w)\<rparr>"

subsection \<open>Constructor\<close>

text \<open>\<open>options.x !== undefined && options.x <= 0\<close>.\<close>

definition invalid :: "number option \<Rightarrow> bool" where
  "invalid v = (case v of None \<Rightarrow> False | Some n \<Rightarrow> num_le n (Num 0))"

definition CircuitBreaker_new ::
  "'e CircuitBreakerOptions \<Rightarrow> config_error + ('a, 'e) breaker" where
  "CircuitBreaker_new options =
     (if invalid (opt_failureThreshold options)
        then Inl (ConfigError ''failureThreshold must be a positive number'')
      else if invalid (opt_successThreshold options)
        then Inl (ConfigError ''successThreshold must be a positive number'')
      else if invalid (opt_timeout options)
        then Inl (ConfigError ''timeout must be a positive number'')
      else Inr \<lparr>state = CLOSED, failureCount = 0, successCount = 0, nextAttemptTime = Num 0,
        failureThreshold = (case opt_failureThreshold options of None \<Rightarrow> Num 3 | Some n \<Rightarrow> n),
        successThreshold = (case opt_successThreshold options of None \<Rightarrow> Num 2 | Some n \<Rightarrow> n),
        timeout = (case opt_timeout options of None \<Rightarrow> Num 10000 | Some n \<Rightarrow> n),
        onOpen = opt_onOpen options, onClose = opt_onClose options,
        onHalfOpen = opt_onHalfOpen options,
        timeoutId = None, timers = [], fresh = 0, notified = [], calls = []\<rparr>)"

subsection \<open>Methods\<close>

text \<open>\<open>reset()\<close>: the three assignments, then \<open>this.onClose?.()\<close>.\<close>

definition reset :: "('a, 'e) breaker \<Rightarrow> 'e option \<times> ('a, 'e) breaker" where
  "reset w =
     notify (onClose w) OnClose (w\<lparr>failureCount := 0, successCount := 0, state := CLOSED\<rparr>)"

definition success :: "('a, 'e) breaker \<Rightarrow> 'e option \<times> ('a, 'e) breaker" where
  "success w =
     (if state w = HALF_OPEN then
        (let w1 = w\<lparr>successCount := successCount w + 1\<rparr>
         in if num_le (successThreshold w1) (Num (successCount w1)) then reset w1
            else (None, w1))
      else (None, w))"

text \<open>
  \<open>open()\<close>: state and deadline are written first; when \<open>this.onOpen?.()\<close> throws, the
  timer is neither cleared nor scheduled.
\<close>

definition open_circuit :: "int \<Rightarrow> ('a, 'e) breaker \<Rightarrow> 'e option \<times> ('a, 'e) breaker" where
  "open_circuit now w =
     (let w1 = w\<lparr>state := OPEN, nextAttemptTime := num_add (Num now) (timeout w)\<rparr>
      in case notify (onOpen w1) OnOpen w1 of
           (Some x, w2) \<Rightarrow> (Some x, w2)
         | (None, w2) \<Rightarrow>
             (let w3 = (case timeoutId w2 of None \<Rightarrow> w2 | Some i \<Rightarrow> clearTimeout i w2)
              in (None, setTimeout now (timeout w3) w3)))"

text \<open>
  \<open>fail(error): never\<close>: the value it throws, which is \<open>error\<close> unless \<open>open()\<close> threw
  first, and the breaker afterwards.
\<close>

definition fail :: "int \<Rightarrow> 'e \<Rightarrow> ('a, 'e) breaker \<Rightarrow> 'e \<times> ('a, 'e) breaker" where
  "fail now error w =
     (let w1 = w\<lparr>failureCount := failureCount w + 1\<rparr>
      in if num_le (failureThreshold w1) (Num (failureCount w1))
         then (case open_circuit now w1 of
                 (Some x, w2) \<Rightarrow> (x, w2)
               | (None, w2) \<Rightarrow> (error, w2))
         else (error, w1))"

definition transitionToHalfOpen :: "('a, 'e) breaker \<Rightarrow> 'e option \<times> ('a, 'e) breaker" where
  "transitionToHalfOpen w =
     (if state w = OPEN then
        (case notify (onHalfOpen w) OnHalfOpen (w\<lparr>state := HALF_OPEN, successCount := 0\<rparr>) of
           (Some x, w1) \<Rightarrow> (Some x, w1)
         | (None, w1) \<Rightarrow> (None, w1\<lparr>timeoutId := None\<rparr>))
      else (None, w\<lparr>timeoutId := None\<rparr>))"

definition trip :: "int \<Rightarrow> ('a, 'e) breaker \<Rightarrow> 'e option \<times> ('a, 'e) breaker" where
  "trip now w = open_circuit now w"

definition destroy :: "('a, 'e) breaker \<Rightarrow> ('a, 'e) breaker" where
  "destroy w =
     (case timeoutId w of None \<Rightarrow> w | Some i \<Rightarrow> (clearTimeout i w)\<lparr>timeoutId := None\<rparr>)"

text \<open>\<open>Math.ceil((this.nextAttemptTime - Date.now()) / 1000)\<close>.\<close>

definition timeUntilRetry :: "int \<Rightarrow> ('a, 'e) breaker \<Rightarrow> number" where
  "timeUntilRetry now w =
     (case nextAttemptTime w of NaN \<Rightarrow> NaN | Num t \<Rightarrow> Num (- ((now - t) div 1000)))"

text \<open>
  The \<open>try\<close>/\<open>catch\<close> of \<open>fire\<close>. The wrapped function is invoked with \<open>args\<close> and answers
  \<open>Inr\<close> a result or \<open>Inl\<close> a thrown value. \<open>this.success(response)\<close> is inside the
  \<open>try\<close>, so what it throws is caught and handed to \<open>fail\<close>. \<open>settled\<close> is the clock that
  \<open>open()\<close> reads once the awaited call has settled.
\<close>

definition attempt ::
  "('a \<Rightarrow> 'e + 'r) \<Rightarrow> 'a \<Rightarrow> int \<Rightarrow> ('a, 'e) breaker \<Rightarrow>
   ('e fire_error + 'r) \<times> ('a, 'e) breaker" where
  "attempt request args settled w =
     (let w1 = w\<lparr>calls := calls w @ [args]\<rparr>
      in case request args of
           Inr response \<Rightarrow>
             (case success w1 of
                (None, w2) \<Rightarrow> (Inr response, w2)
              | (Some x, w2) \<Rightarrow> (case fail settled x w2 of (y, w3) \<Rightarrow> (Inl (Thrown y), w3)))
         | Inl error \<Rightarrow> (case fail settled error w1 of (y, w2) \<Rightarrow> (Inl (Thrown y), w2)))"

text \<open>
  \<open>fire(...args)\<close>, with \<open>now\<close> the clock read on entry. What \<open>transitionToHalfOpen\<close>
  throws leaves \<open>fire\<close> before the wrapped function is invoked.
\<close>

definition fire ::
  "int \<Rightarrow> ('a \<Rightarrow> 'e + 'r) \<Rightarrow> 'a \<Rightarrow> int \<Rightarrow> ('a, 'e) breaker \<Rightarrow>
   ('e fire_error + 'r) \<times> ('a, 'e) breaker" where
  "fire now request args settled w =
     (if state w = OPEN then
        (if num_lt (nextAttemptTime w) (Num now)
         then (case transitionToHalfOpen w of
                 (Some x, w1) \<Rightarrow> (Inl (Thrown x), w1)
               | (None, w1) \<Rightarrow> attempt request args settled w1)
         else (Inl (CircuitOpen (timeUntilRetry now w)), w))
      else attempt request args settled w)"

text \<open>
  The pending timer with handle \<open>i\<close> runs its callback \<open>() => this.transitionToHalfOpen()\<close>
  at clock reading \<open>now\<close>, not before its due time. What the callback throws goes to the
  runtime and not to a caller of the breaker.
\<close>

definition timer_fires :: "nat \<Rightarrow> int \<Rightarrow> ('a, 'e) breaker \<Rightarrow> ('a, 'e) breaker" where
  "timer_fires i now w =
     (case map_of (timers w) i of
        None \<Rightarrow> w
      | Some due \<Rightarrow>
          if num_lt (Num now) due then w else snd (transitionToHalfOpen (clearTimeout i w)))"

subsection \<open>Sequences of operations\<close>

datatype ('a, 'e, 'r) action =
    Fire int "'a \<Rightarrow> 'e + 'r" 'a int
  | TimerFires nat int
  | Trip int
  | Reset
  | Destroy

text \<open>The breaker after an operation, whether the operation returned or threw.\<close>

fun step :: "('a, 'e) breaker \<Rightarrow> ('a, 'e, 'r) action \<Rightarrow> ('a, 'e) breaker" where
  "step w (Fire now request args settled) = snd (fire now request args settled w)"
| "step w (TimerFires i now) = timer_fires i now w"
| "step w (Trip now) = snd (trip now w)"
| "step w Reset = snd (reset w)"
| "step w Destroy = destroy w"

definition run :: "('a, 'e) breaker \<Rightarrow> ('a, 'e, 'r) action list \<Rightarrow> ('a, 'e) breaker" where
  "run w acts = foldl step w acts"

text \<open>A call whose wrapped function throws, and one whose wrapped function returns.\<close>

fun failing :: "('a, 'e, 'r) action \<Rightarrow> bool" where
  "failing (Fire now request args settled) = isl (request args)"
| "failing _ = False"

fun succeeding :: "('a, 'e, 'r) action \<Rightarrow> bool" where
  "succeeding (Fire now request args settled) = (\<not> isl (request args))"
| "succeeding _ = False"

fun passed :: "('a, 'e, 'r) action \<Rightarrow> 'a list" where
  "passed (Fire now request args settled) = [args]"
| "passed _ = []"

fun settled_at :: "('a, 'e, 'r) action \<Rightarrow> int" where
  "settled_at (Fire now request args settled) = settled"
| "settled_at (TimerFires i now) = now"
| "settled_at (Trip now) = now"
| "settled_at _ = 0"

text \<open>No clock reading of the action is before the epoch.\<close>

fun clock_nonneg :: "('a, 'e, 'r) action \<Rightarrow> bool" where
  "clock_nonneg (Fire now request args settled) = (0 \<le> now \<and> 0 \<le> settled)"
| "clock_nonneg (TimerFires i now) = (0 \<le> now)"
| "clock_nonneg (Trip now) = (0 \<le> now)"
| "clock_nonneg _ = True"

subsection \<open>The wrappers\<close>

text \<open>
  \<open>options = {}\<close>, which is also what the constructor takes when \<open>options\<close> is omitted.
\<close>

definition no_options :: "'e CircuitBreakerOptions" where
  "no_options = \<lparr>opt_failureThreshold = None, opt_successThreshold = None, opt_timeout = None,
     opt_onOpen = Absent, opt_onClose = Absent, opt_onHalfOpen = Absent\<rparr>"

text \<open>
  The closure \<open>async (...args) => circuit.fire(...args)\<close>: the breaker it captured and
  the handler that breaker wraps.
\<close>

record ('a, 'e, 'r) wrapped =
  circuit :: "('a, 'e) breaker"
  handler :: "'a \<Rightarrow> 'e + 'r"

definition withCircuitBreaker ::
  "('a \<Rightarrow> 'e + 'r) \<Rightarrow> 'e CircuitBreakerOptions \<Rightarrow> config_error + ('a, 'e, 'r) wrapped" where
  "withCircuitBreaker h options =
     (case CircuitBreaker_new options of
        Inl err \<Rightarrow> Inl err
      | Inr c \<Rightarrow> Inr \<lparr>circuit = c, handler = h\<rparr>)"

definition withApiCircuitBreaker ::
  "('a \<Rightarrow> 'e + 'r) \<Rightarrow> 'e CircuitBreakerOptions \<Rightarrow> config_error + ('a, 'e, 'r) wrapped" where
  "withApiCircuitBreaker h options = withCircuitBreaker h options"

text \<open>Calling the closure once: the outcome of the call and the closure afterwards.\<close>

definition invoke ::
  "int \<Rightarrow> 'a \<Rightarrow> int \<Rightarrow> ('a, 'e, 'r) wrapped \<Rightarrow> ('e fire_error + 'r) \<times> ('a, 'e, 'r) wrapped" where
  "invoke now args settled f =
     (case fire now (handler f) args settled (circuit f) of
        (outcome, c) \<Rightarrow> (outcome, f\<lparr>circuit := c\<rparr>))"

text \<open>Calling it repeatedly, each call as (clock on entry, arguments, clock when settled).\<close>

fun invoke_all ::
  "('a, 'e, 'r) wrapped \<Rightarrow> (int \<times> 'a \<times> int) list \<Rightarrow> ('e fire_error + 'r) list \<times> ('a, 'e, 'r) wrapped" where
  "invoke_all f [] = ([], f)"
| "invoke_all f ((now, args, settled) # cs) =
     (case invoke now args settled f of
        (outcome, f1) \<Rightarrow> (case invoke_all f1 cs of (outcomes, f2) \<Rightarrow> (outcome # outcomes, f2)))"

subsection \<open>Test doubles and configurations\<close>

text \<open>
  The mocks of the test suite, \<open>vi.fn().mockRejectedValue(new Error('failure'))\<close> and
  \<open>vi.fn().mockResolvedValue('success')\<close>, and two configurations: thresholds 2 and 2
  with a cooldown of 1000 ms, and a failure threshold of 1 with the same cooldown.
\<close>

definition mockRejected :: "string \<Rightarrow> string + string" where
  "mockRejected args = Inl ''failure''"

definition mockResolved :: "string \<Rightarrow> string + string" where
  "mockResolved args = Inr ''success''"

definition options_2_2_1000 :: "string CircuitBreakerOptions" where
  "options_2_2_1000 = no_options\<lparr>opt_failureThreshold := Some (Num 2),
     opt_successThreshold := Some (Num 2), opt_timeout := Some (Num 1000)\<rparr>"

definition options_1_2_1000 :: "string CircuitBreakerOptions" where
  "options_1_2_1000 = no_options\<lparr>opt_failureThreshold := Some (Num 1),
     opt_successThreshold := Some (Num 2), opt_timeout := Some (Num 1000)\<rparr>"

text \<open>
  Configurations with a callback that throws: \<open>onOpen\<close> with a failure threshold of 1, and
  \<open>onClose\<close> with both thresholds 1 and a cooldown of 1000 ms. And the configuration
  \<open>{ failureThreshold: NaN }\<close>.
\<close>

definition options_onOpen_throws :: "string CircuitBreakerOptions" where
  "options_onOpen_throws = no_options\<lparr>opt_failureThreshold := Some (Num 1),
     opt_onOpen := Throws ''onOpen failed''\<rparr>"

definition options_onClose_throws :: "string CircuitBreakerOptions" where
  "options_onClose_throws = no_options\<lparr>opt_failureThreshold := Some (Num 1),
     opt_successThreshold := Some (Num 1), opt_timeout := Some (Num 1000),
     opt_onClose := Throws ''onClose failed''\<rparr>"

definition options_NaN :: "string CircuitBreakerOptions" where
  "options_NaN = no_options\<lparr>opt_failureThreshold := Some NaN\<rparr>"

text \<open>The breaker \<open>new CircuitBreaker(mockFn, options)\<close> of an accepted configuration.\<close>

definition breaker_of :: "string CircuitBreakerOptions \<Rightarrow> (string, string) breaker" where
  "breaker_of options = projr (CircuitBreaker_new options)"

subsection \<open>Invariants\<close>

text \<open>
  A numeric cooldown is positive and an open breaker then carries a positive deadline;
  with a \<open>NaN\<close> cooldown the deadline of an open breaker is \<open>NaN\<close>.
\<close>

definition armed :: "('a, 'e) breaker \<Rightarrow> bool" where
  "armed w =
     ((timeout w = NaN \<or> num_lt (Num 0) (timeout w)) \<and>
      (state w = OPEN \<longrightarrow>
         (timeout w = NaN \<and> nextAttemptTime w = NaN) \<or>
         (timeout w \<noteq> NaN \<and> num_lt (Num 0) (nextAttemptTime w))))"



section \<open>Properties\<close>

lemmas methods =
  notify_def clearTimeout_def setTimeout_def reset_def success_def open_circuit_def fail_def
  transitionToHalfOpen_def trip_def destroy_def attempt_def fire_def timer_fires_def
  timeUntilRetry_def

lemmas concrete =
  run_def methods Let_def CircuitBreaker_new_def invalid_def no_options_def
  mockRejected_def mockResolved_def options_2_2_1000_def options_1_2_1000_def
  options_onOpen_throws_def options_onClose_throws_def options_NaN_def breaker_of_def

subsection \<open>Running action lists\<close>

lemma run_Nil: "run w [] = w"
  by (simp add: run_def)

lemma run_Cons: "run w (a # acts) = run (step w a) acts"
  by (simp add: run_def)

lemma run_snoc: "run w (acts @ [a]) = step (run w acts) a"
  by (simp add: run_def)

subsection \<open>Numbers and the constructor\<close>

lemma num_le_mono: "num_le t (Num a) \<Longrightarrow> a \<le> b \<Longrightarrow> num_le t (Num b)"
  by (cases t) simp_all

lemma invalid_iff: "invalid v \<longleftrightarrow> (\<exists>n. v = Some (Num n) \<and> n \<le> 0)"
proof (cases v)
  case None
  then show ?thesis by (simp add: invalid_def)
next
  case (Some x)
  then show ?thesis by (cases x) (simp_all add: invalid_def)
qed

text \<open>
  The constructor throws exactly when a provided value is a number that is \<open><= 0\<close>;
  otherwise the breaker holds each provided value, \<open>NaN\<close> included, and 3, 2 and 10000
  for the omitted ones.
\<close>

lemma constructor_outcome:
  "case CircuitBreaker_new options of
     Inl err \<Rightarrow>
       (\<exists>n. opt_failureThreshold options = Some (Num n) \<and> n \<le> 0) \<or>
       (\<exists>n. opt_successThreshold options = Some (Num n) \<and> n \<le> 0) \<or>
       (\<exists>n. opt_timeout options = Some (Num n) \<and> n \<le> 0)
   | Inr w \<Rightarrow>
       \<not> ((\<exists>n. opt_failureThreshold options = Some (Num n) \<and> n \<le> 0) \<or>
          (\<exists>n. opt_successThreshold options = Some (Num n) \<and> n \<le> 0) \<or>
          (\<exists>n. opt_timeout options = Some (Num n) \<and> n \<le> 0)) \<and>
       state w = CLOSED \<and> failureCount w = 0 \<and> successCount w = 0 \<and>
       failureThreshold w = (case opt_failureThreshold options of None \<Rightarrow> Num 3 | Some n \<Rightarrow> n) \<and>
       successThreshold w = (case opt_successThreshold options of None \<Rightarrow> Num 2 | Some n \<Rightarrow> n) \<and>
       timeout w = (case opt_timeout options of None \<Rightarrow> Num 10000 | Some n \<Rightarrow> n)"
  by (simp add: CircuitBreaker_new_def invalid_iff)

lemma new_fields:
  assumes "CircuitBreaker_new options = Inr w"
  shows "state w = CLOSED" and "failureCount w = 0" and "successCount w = 0"
    and "nextAttemptTime w = Num 0" and "\<not> num_le (failureThreshold w) (Num 0)"
    and "\<not> num_le (successThreshold w) (Num 0)" and "\<not> num_le (timeout w) (Num 0)"
    and "timers w = []" and "timeoutId w = None"
  using assms
  by (auto simp: CircuitBreaker_new_def invalid_def split: if_splits option.splits)

subsection \<open>The deadline invariant, method by method\<close>

lemma notify_fields:
  "state (snd (notify cb n w)) = state w"
  "nextAttemptTime (snd (notify cb n w)) = nextAttemptTime w"
  "timeout (snd (notify cb n w)) = timeout w"
  by (simp_all add: notify_def split: callback.splits)

lemma armed_reset: "armed w \<Longrightarrow> armed (snd (reset w))"
  by (simp add: armed_def reset_def notify_fields)

lemma armed_open: "armed w \<Longrightarrow> 0 \<le> now \<Longrightarrow> armed (snd (open_circuit now w))"
  by (cases "timeout w"; cases "onOpen w")
     (simp_all add: armed_def open_circuit_def notify_def setTimeout_def clearTimeout_def Let_def
           split: option.splits)

lemma armed_half: "armed w \<Longrightarrow> armed (snd (transitionToHalfOpen w))"
  by (cases "timeout w"; cases "onHalfOpen w")
     (simp_all add: armed_def transitionToHalfOpen_def notify_def)

lemma armed_calls: "armed (w\<lparr>calls := cs\<rparr>) = armed w"
  by (simp add: armed_def)

lemma armed_timers: "armed (clearTimeout i w) = armed w"
  by (simp add: armed_def clearTimeout_def)

lemma armed_success: "armed w \<Longrightarrow> armed (snd (success w))"
proof -
  assume a: "armed w"
  then have "armed (w\<lparr>successCount := successCount w + 1\<rparr>)"
    by (simp add: armed_def)
  then show ?thesis
    using a by (simp add: success_def Let_def armed_reset)
qed

lemma armed_fail: "armed w \<Longrightarrow> 0 \<le> now \<Longrightarrow> armed (snd (fail now e w))"
proof -
  assume a: "armed w" and n: "0 \<le> now"
  let ?w1 = "w\<lparr>failureCount := failureCount w + 1\<rparr>"
  from a have a1: "armed ?w1"
    by (simp add: armed_def)
  show ?thesis
    using a1 armed_open [OF a1 n]
    by (auto simp: fail_def Let_def split: prod.splits option.splits)
qed

lemma armed_attempt:
  "armed w \<Longrightarrow> 0 \<le> settled \<Longrightarrow> armed (snd (attempt request args settled w))"
proof -
  assume a: "armed w" and n: "0 \<le> settled"
  let ?w1 = "w\<lparr>calls := calls w @ [args]\<rparr>"
  from a have a1: "armed ?w1"
    by (simp add: armed_calls)
  show ?thesis
  proof (cases "request args")
    case (Inl e)
    then show ?thesis
      using armed_fail [OF a1 n, of e]
      by (auto simp: attempt_def Let_def split: prod.splits)
  next
    case (Inr r)
    show ?thesis
    proof (cases "success ?w1")
      case (Pair thrown w2)
      with armed_success [OF a1] have a2: "armed w2" by simp
      show ?thesis
      proof (cases thrown)
        case None
        with Inr Pair a2 show ?thesis
          by (simp add: attempt_def Let_def)
      next
        case (Some x)
        with Inr Pair armed_fail [OF a2 n, of x] show ?thesis
          by (auto simp: attempt_def Let_def split: prod.splits)
      qed
    qed
  qed
qed

lemma armed_fire:
  "armed w \<Longrightarrow> 0 \<le> settled \<Longrightarrow> armed (snd (fire now request args settled w))"
proof -
  assume a: "armed w" and n: "0 \<le> settled"
  show ?thesis
  proof (cases "transitionToHalfOpen w")
    case (Pair thrown w1)
    with armed_half [OF a] have a1: "armed w1" by simp
    show ?thesis
      using a a1 Pair armed_attempt [OF a n, of request args]
        armed_attempt [OF a1 n, of request args]
      by (cases thrown) (auto simp: fire_def)
  qed
qed

lemma armed_timer: "armed w \<Longrightarrow> armed (timer_fires i now w)"
  using armed_half [of "clearTimeout i w"]
  by (simp add: timer_fires_def armed_timers split: option.splits)

lemma armed_destroy: "armed w \<Longrightarrow> armed (destroy w)"
  by (simp add: destroy_def armed_def clearTimeout_def split: option.splits)

lemma armed_step: "armed w \<Longrightarrow> clock_nonneg a \<Longrightarrow> armed (step w a)"
  by (cases a)
     (simp_all add: armed_fire armed_timer armed_open armed_reset armed_destroy trip_def)

lemma armed_run: "armed w \<Longrightarrow> list_all clock_nonneg acts \<Longrightarrow> armed (run w acts)"
  by (induction acts arbitrary: w) (simp_all add: run_Nil run_Cons armed_step)

lemma timeout_step: "timeout (step w a) = timeout w"
  by (cases a)
     (auto simp: methods Let_def
           split: sum.splits option.splits callback.splits prod.splits)

lemma timeout_run: "timeout (run w acts) = timeout w"
  by (induction acts arbitrary: w) (simp_all add: run_Nil run_Cons timeout_step)

subsection \<open>A streak of failures below the threshold\<close>

lemma failures_below:
  "state w = CLOSED \<Longrightarrow> list_all failing acts \<Longrightarrow>
   \<not> num_le (failureThreshold w) (Num (failureCount w + int (length acts))) \<Longrightarrow>
   run w acts = w\<lparr>failureCount := failureCount w + int (length acts),
                  calls := calls w @ concat (map passed acts)\<rparr>"
proof (induction acts arbitrary: w)
  case Nil
  then show ?case by (simp add: run_Nil)
next
  case (Cons a acts)
  from Cons.prems(3) have one: "\<not> num_le (failureThreshold w) (Num (failureCount w + 1))"
    using num_le_mono [of "failureThreshold w" "failureCount w + 1"
        "failureCount w + int (length (a # acts))"] by auto
  from Cons.prems(2) obtain now request args settled e
    where a: "a = Fire now request args settled" and e: "request args = Inl e"
    by (cases a) (auto simp: isl_def)
  let ?w1 = "w\<lparr>calls := calls w @ [args], failureCount := failureCount w + 1\<rparr>"
  have st: "step w a = ?w1"
    using Cons.prems(1) one by (simp add: a e fire_def attempt_def fail_def Let_def)
  have "run ?w1 acts = ?w1\<lparr>failureCount := failureCount ?w1 + int (length acts),
                  calls := calls ?w1 @ concat (map passed acts)\<rparr>"
    using Cons.prems by (intro Cons.IH) (simp_all add: add.assoc)
  moreover have "run w (a # acts) = run ?w1 acts"
    unfolding run_Cons st ..
  ultimately show ?case
    by (simp add: a add.assoc)
qed

subsection \<open>Successes while closed\<close>

text \<open>
  Claim C1, as the code has it. While the breaker is \<open>CLOSED\<close>, a successful call changes
  neither the state nor a counter: after any sequence of successful calls the breaker is
  the one it was, with the calls recorded, so \<open>failureCount\<close> keeps its value (0 stays
  0, and an earlier failure stays counted).
\<close>

theorem success_keeps_failureCount:
  "state w = CLOSED \<Longrightarrow> list_all succeeding acts \<Longrightarrow>
   run w acts = w\<lparr>calls := calls w @ concat (map passed acts)\<rparr> \<and>
   failureCount (run w acts) = failureCount w"
proof (induction acts arbitrary: w)
  case Nil
  then show ?case by (simp add: run_Nil)
next
  case (Cons a acts)
  then show ?case
    by (cases a)
       (auto simp: run_Cons fire_def attempt_def success_def Let_def split: sum.splits)
qed

theorem success_keeps_failureCount_witness:
  "state (run (breaker_of no_options) [Fire 0 mockRejected ''test'' 1]) = CLOSED \<and>
   list_all succeeding [Fire 2 mockResolved ''test'' 3, Fire 4 mockResolved ''test'' 5] \<and>
   failureCount (run (run (breaker_of no_options) [Fire 0 mockRejected ''test'' 1])
     [Fire 2 mockResolved ''test'' 3, Fire 4 mockResolved ''test'' 5]) = 1"
  using success_keeps_failureCount
    [of "run (breaker_of no_options) [Fire 0 mockRejected ''test'' 1]"
        "[Fire 2 mockResolved ''test'' 3, Fire 4 mockResolved ''test'' 5]"]
  by (simp add: concrete)

text \<open>
  Claim C1 as stated fails: with the default options, one failure followed by one success
  leaves \<open>failureCount\<close> at 1, and three failures separated by successes open the breaker.
\<close>

theorem success_resets_failureCount_counterexample:
  "state (run (breaker_of no_options) [Fire 0 mockRejected ''test'' 1]) = CLOSED \<and>
   succeeding (Fire 2 mockResolved ''test'' 3) \<and>
   failureCount (run (breaker_of no_options)
     [Fire 0 mockRejected ''test'' 1, Fire 2 mockResolved ''test'' 3]) \<noteq> 0 \<and>
   state (run (breaker_of no_options)
     [Fire 0 mockRejected ''test'' 1, Fire 2 mockResolved ''test'' 3,
      Fire 4 mockRejected ''test'' 5, Fire 6 mockResolved ''test'' 7,
      Fire 8 mockRejected ''test'' 9]) = OPEN"
  by (simp add: concrete)

subsection \<open>A failure while half-open\<close>

text \<open>
  Claim C2: a single failed call in \<open>HALF_OPEN\<close> re-opens the breaker, resets
  \<open>successCount\<close> and sets a fresh deadline. The code does not do so on this input: the
  default breaker (failure threshold 3) is opened by \<open>trip()\<close> at time 0 and moved to
  \<open>HALF_OPEN\<close> by its timer; the failed call at 10001 is rethrown and only counted, and the
  breaker stays \<open>HALF_OPEN\<close>, because \<open>fail\<close> opens the breaker only when
  \<open>failureCount\<close> has reached \<open>failureThreshold\<close>. A breaker that was opened by
  failures (threshold 1) is re-opened by a failed probe, with the deadline 1000 ms after
  the failure; \<open>successCount\<close> is then still 1, \<open>transitionToHalfOpen\<close> being what
  zeroes it.
\<close>

theorem failed_probe_after_trip_stays_half_open:
  "state (run (breaker_of no_options) [Trip 0, TimerFires 0 10000]) = HALF_OPEN \<and>
   fire 10001 mockRejected ''test'' 10002
     (run (breaker_of no_options) [Trip 0, TimerFires 0 10000]) =
   (Inl (Thrown ''failure''),
    (run (breaker_of no_options) [Trip 0, TimerFires 0 10000])
      \<lparr>calls := [''test''], failureCount := 1\<rparr>) \<and>
   state (snd (fire 10001 mockRejected ''test'' 10002
     (run (breaker_of no_options) [Trip 0, TimerFires 0 10000]))) = HALF_OPEN \<and>
   state (run (breaker_of options_1_2_1000)
     [Fire 0 mockRejected ''test'' 0, TimerFires 0 1000,
      Fire 1001 mockResolved ''test'' 1001]) = HALF_OPEN \<and>
   state (snd (fire 1002 mockRejected ''test'' 1003 (run (breaker_of options_1_2_1000)
     [Fire 0 mockRejected ''test'' 0, TimerFires 0 1000,
      Fire 1001 mockResolved ''test'' 1001]))) = OPEN \<and>
   nextAttemptTime (snd (fire 1002 mockRejected ''test'' 1003
     (run (breaker_of options_1_2_1000)
     [Fire 0 mockRejected ''test'' 0, TimerFires 0 1000,
      Fire 1001 mockResolved ''test'' 1001]))) = Num 2003 \<and>
   successCount (snd (fire 1002 mockRejected ''test'' 1003
     (run (breaker_of options_1_2_1000)
     [Fire 0 mockRejected ''test'' 0, TimerFires 0 1000,
      Fire 1001 mockResolved ''test'' 1001]))) = 1"
  by (simp add: concrete)

subsection \<open>Failing fast\<close>

text \<open>
  Claim C3. For a breaker in \<open>OPEN\<close> at a clock reading that is not after
  \<open>nextAttemptTime\<close>, \<open>fire\<close> throws the breaker's own error and returns the breaker as
  it was: the wrapped function is not invoked (\<open>calls\<close> is unchanged) and no field
  changes.
\<close>

theorem fire_open_rejects:
  "state w = OPEN \<Longrightarrow> \<not> num_lt (nextAttemptTime w) (Num now) \<Longrightarrow>
   fire now request args settled w = (Inl (CircuitOpen (timeUntilRetry now w)), w) \<and>
   calls (snd (fire now request args settled w)) = calls w"
  by (simp add: fire_def)

theorem fire_open_rejects_witness:
  "state (run (breaker_of options_1_2_1000) [Fire 0 mockRejected ''test'' 0]) = OPEN \<and>
   \<not> num_lt (nextAttemptTime (run (breaker_of options_1_2_1000)
        [Fire 0 mockRejected ''test'' 0])) (Num 500) \<and>
   fire 500 mockResolved ''test'' 500
     (run (breaker_of options_1_2_1000) [Fire 0 mockRejected ''test'' 0]) =
   (Inl (CircuitOpen (Num 1)),
    run (breaker_of options_1_2_1000) [Fire 0 mockRejected ''test'' 0])"
  using fire_open_rejects
    [of "run (breaker_of options_1_2_1000) [Fire 0 mockRejected ''test'' 0]" 500
        mockResolved "''test''" 500]
  by (simp add: concrete)

subsection \<open>Tripping at the failure threshold\<close>

text \<open>
  Claim C4. From a freshly constructed breaker, a run of failed calls shorter than
  \<open>failureThreshold\<close> leaves the state \<open>CLOSED\<close> with the failures counted, and a run of
  exactly \<open>failureThreshold\<close> failed calls ends in \<open>OPEN\<close> with \<open>nextAttemptTime\<close> equal to
  the clock read when the last call failed plus \<open>timeout\<close>.
\<close>

theorem trips_at_failureThreshold:
  assumes "CircuitBreaker_new options = Inr w0" and "list_all failing acts"
  shows "(num_lt (Num (int (length acts))) (failureThreshold w0) \<longrightarrow>
            state (run w0 acts) = CLOSED \<and> failureCount (run w0 acts) = int (length acts)) \<and>
         (failureThreshold w0 = Num (int (length acts)) \<longrightarrow>
            state (run w0 acts) = OPEN \<and>
            nextAttemptTime (run w0 acts) =
              num_add (Num (settled_at (last acts))) (timeout w0))"
proof -
  note w0 = new_fields [OF assms(1)]
  have below: "state (run w0 acts) = CLOSED \<and> failureCount (run w0 acts) = int (length acts)"
    if "num_lt (Num (int (length acts))) (failureThreshold w0)"
  proof -
    from that have "\<not> num_le (failureThreshold w0) (Num (failureCount w0 + int (length acts)))"
      using w0(2) by (cases "failureThreshold w0") simp_all
    from failures_below [OF w0(1) assms(2) this] w0 show ?thesis by simp
  qed
  have reached: "state (run w0 acts) = OPEN \<and>
      nextAttemptTime (run w0 acts) = num_add (Num (settled_at (last acts))) (timeout w0)"
    if full: "failureThreshold w0 = Num (int (length acts))"
  proof -
    from full w0(5) have "acts \<noteq> []" by auto
    then obtain bs a where acts: "acts = bs @ [a]"
      by (meson rev_exhaust)
    with assms(2) have bs: "list_all failing bs" and a: "failing a" by simp_all
    from full acts
    have less: "\<not> num_le (failureThreshold w0) (Num (failureCount w0 + int (length bs)))"
      using w0(2) by simp
    have mid: "run w0 bs = w0\<lparr>failureCount := int (length bs),
                             calls := calls w0 @ concat (map passed bs)\<rparr>"
      using failures_below [OF w0(1) bs less] w0 by simp
    from a full acts w0 show ?thesis
      by (cases a)
         (auto simp: run_snoc mid methods Let_def
               split: sum.splits option.splits callback.splits prod.splits)
  qed
  from below reached show ?thesis by blast
qed

theorem trips_at_failureThreshold_witness:
  "CircuitBreaker_new options_2_2_1000 = Inr (breaker_of options_2_2_1000) \<and>
   list_all failing [Fire 0 mockRejected ''test'' 5, Fire 10 mockRejected ''test'' 15] \<and>
   num_lt (Num (int (length [Fire 0 mockRejected ''test'' 5])))
     (failureThreshold (breaker_of options_2_2_1000)) \<and>
   state (run (breaker_of options_2_2_1000) [Fire 0 mockRejected ''test'' 5]) = CLOSED \<and>
   failureThreshold (breaker_of options_2_2_1000) =
     Num (int (length [Fire 0 mockRejected ''test'' 5, Fire 10 mockRejected ''test'' 15])) \<and>
   state (run (breaker_of options_2_2_1000)
     [Fire 0 mockRejected ''test'' 5, Fire 10 mockRejected ''test'' 15]) = OPEN \<and>
   nextAttemptTime (run (breaker_of options_2_2_1000)
     [Fire 0 mockRejected ''test'' 5, Fire 10 mockRejected ''test'' 15]) = Num 1015"
  using trips_at_failureThreshold
    [of options_2_2_1000 "breaker_of options_2_2_1000" "[Fire 0 mockRejected ''test'' 5]"]
    trips_at_failureThreshold
    [of options_2_2_1000 "breaker_of options_2_2_1000"
        "[Fire 0 mockRejected ''test'' 5, Fire 10 mockRejected ''test'' 15]"]
  by (simp add: concrete)

subsection \<open>Closing at the success threshold\<close>

text \<open>
  Claim C5: in \<open>HALF_OPEN\<close>, fewer than \<open>successThreshold\<close> consecutive successes leave
  the breaker \<open>HALF_OPEN\<close>. The code does not do so on this input: the default breaker
  (success threshold 2) is opened by \<open>trip()\<close> and moved to \<open>HALF_OPEN\<close> by its timer;
  one call succeeds, the next fails and, being only counted by \<open>fail\<close>, neither
  re-opens the breaker nor touches \<open>successCount\<close>; the single success that follows
  closes the breaker.
\<close>

theorem broken_streak_closes:
  "state (run (breaker_of no_options)
     [Trip 0, TimerFires 0 10000, Fire 10001 mockResolved ''test'' 10002,
      Fire 10003 mockRejected ''test'' 10004]) = HALF_OPEN \<and>
   successThreshold (run (breaker_of no_options)
     [Trip 0, TimerFires 0 10000, Fire 10001 mockResolved ''test'' 10002,
      Fire 10003 mockRejected ''test'' 10004]) = Num 2 \<and>
   failing (Fire 10003 mockRejected ''test'' 10004) \<and>
   succeeding (Fire 10005 mockResolved ''test'' 10006) \<and>
   state (run (breaker_of no_options)
     [Trip 0, TimerFires 0 10000, Fire 10001 mockResolved ''test'' 10002,
      Fire 10003 mockRejected ''test'' 10004,
      Fire 10005 mockResolved ''test'' 10006]) = CLOSED"
  by (simp add: concrete)

subsection \<open>The cooldown deadline\<close>

text \<open>
  Claim C6, as the code has it. In every state reached from a freshly constructed breaker
  by calls, timer firings, \<open>trip()\<close>, \<open>reset()\<close> and \<open>destroy()\<close> at clock readings that
  are not negative, an \<open>OPEN\<close> breaker has \<open>nextAttemptTime\<close> set: positive, or \<open>NaN\<close>
  when the configured \<open>timeout\<close> is \<open>NaN\<close>. The converse does not hold: nothing clears
  \<open>nextAttemptTime\<close>, and both ways out of \<open>OPEN\<close>, \<open>reset\<close> and
  \<open>transitionToHalfOpen\<close>, keep its value.
\<close>

theorem deadline_set_while_open:
  assumes "CircuitBreaker_new options = Inr w0" and "list_all clock_nonneg acts"
    and "w = run w0 acts"
  shows "(state w = OPEN \<longrightarrow>
            (case timeout w0 of
               Num t \<Rightarrow> num_lt (Num 0) (nextAttemptTime w)
             | NaN \<Rightarrow> nextAttemptTime w = NaN)) \<and>
         nextAttemptTime (snd (reset w)) = nextAttemptTime w \<and>
         nextAttemptTime (snd (transitionToHalfOpen w)) = nextAttemptTime w"
proof -
  have "armed w0"
    using new_fields [OF assms(1)] by (cases "timeout w0") (simp_all add: armed_def)
  then have "armed w"
    using assms(2,3) by (simp add: armed_run)
  moreover have "timeout w = timeout w0"
    using assms(3) by (simp add: timeout_run)
  ultimately have "state w = OPEN \<longrightarrow>
      (case timeout w0 of
         Num t \<Rightarrow> num_lt (Num 0) (nextAttemptTime w)
       | NaN \<Rightarrow> nextAttemptTime w = NaN)"
    by (cases "timeout w0") (simp_all add: armed_def)
  moreover have "nextAttemptTime (snd (reset w)) = nextAttemptTime w"
    by (simp add: reset_def notify_fields)
  moreover have "nextAttemptTime (snd (transitionToHalfOpen w)) = nextAttemptTime w"
    by (cases "onHalfOpen w") (simp_all add: transitionToHalfOpen_def notify_def)
  ultimately show ?thesis by blast
qed

theorem deadline_set_while_open_witness:
  "CircuitBreaker_new no_options = Inr (breaker_of no_options) \<and>
   list_all clock_nonneg [Trip 5] \<and>
   state (run (breaker_of no_options) [Trip 5]) = OPEN \<and>
   timeout (breaker_of no_options) = Num 10000 \<and>
   num_lt (Num 0) (nextAttemptTime (run (breaker_of no_options) [Trip 5]))"
  using deadline_set_while_open
    [of no_options "breaker_of no_options" "[Trip 5]" "run (breaker_of no_options) [Trip 5]"]
  by (simp add: concrete)

text \<open>
  Claim C6 as stated fails: after \<open>trip()\<close> at time 5 and \<open>reset()\<close>, the default breaker
  is \<open>CLOSED\<close> with \<open>nextAttemptTime\<close> still 10005.
\<close>

theorem deadline_iff_open_counterexample:
  "\<not> (nextAttemptTime (run (breaker_of no_options) [Trip 5, Reset]) \<noteq> Num 0 \<longleftrightarrow>
      state (run (breaker_of no_options) [Trip 5, Reset]) = OPEN)"
  by (simp add: concrete)

subsection \<open>Manual reset\<close>

text \<open>
  Claim C7, as the code has it. From any state \<open>reset()\<close> moves the breaker to \<open>CLOSED\<close>,
  sets \<open>failureCount\<close> and \<open>successCount\<close> to 0 and calls \<open>onClose\<close> when that callback
  is present. It does not touch the timer: the pending timers and \<open>timeoutId\<close> are as
  before.
\<close>

theorem reset_closes:
  "state (snd (reset w)) = CLOSED \<and>
   failureCount (snd (reset w)) = 0 \<and> successCount (snd (reset w)) = 0 \<and>
   notified (snd (reset w)) = notified w @ (if onClose w = Absent then [] else [OnClose]) \<and>
   timers (snd (reset w)) = timers w \<and> timeoutId (snd (reset w)) = timeoutId w"
  by (simp add: reset_def notify_def split: callback.splits)

text \<open>
  Claim C7 as stated fails: the timer that \<open>trip()\<close> scheduled is still pending after
  \<open>reset()\<close>.
\<close>

theorem reset_cancels_timer_counterexample:
  "timers (snd (trip 0 (breaker_of no_options))) = [(0, Num 10000)] \<and>
   timers (snd (reset (snd (trip 0 (breaker_of no_options))))) \<noteq> []"
  by (simp add: concrete)

subsection \<open>Admitted calls\<close>




subsection \<open>Construction\<close>

text \<open>
  Claim C9: construction fails when a provided \<open>failureThreshold\<close>, \<open>successThreshold\<close>
  or \<open>timeout\<close> is not strictly positive. The code does not do so on this input:
  \<open>{ failureThreshold: NaN }\<close> passes the test \<open><= 0\<close> that rejects 0, the constructor
  returns a breaker whose \<open>failureThreshold\<close> is \<open>NaN\<close>, and no number of failures
  opens that breaker.
\<close>

theorem constructor_accepts_NaN:
  "CircuitBreaker_new options_NaN = Inr (breaker_of options_NaN) \<and>
   failureThreshold (breaker_of options_NaN) = NaN \<and>
   state (run (breaker_of options_NaN)
     [Fire 0 mockRejected ''test'' 1, Fire 2 mockRejected ''test'' 3,
      Fire 4 mockRejected ''test'' 5, Fire 6 mockRejected ''test'' 7]) = CLOSED \<and>
   isl (CircuitBreaker_new (no_options\<lparr>opt_failureThreshold := Some (Num 0)\<rparr>)
     :: config_error + (string, string) breaker)"
  by (simp add: concrete)

subsection \<open>The API-route wrapper\<close>

text \<open>
  Claim C10. For every handler and options, \<open>withApiCircuitBreaker\<close> yields what
  \<open>withCircuitBreaker\<close> yields: the same configuration error, or a closure that on every
  sequence of calls gives the same outcomes and passes through the same breaker states.
\<close>

theorem withApiCircuitBreaker_same:
  "withApiCircuitBreaker h options = withCircuitBreaker h options \<and>
   (case withApiCircuitBreaker h options of
      Inl err \<Rightarrow> Inl err
    | Inr f \<Rightarrow> Inr (invoke_all f cs)) =
   (case withCircuitBreaker h options of
      Inl err \<Rightarrow> Inl err
    | Inr f \<Rightarrow> Inr (invoke_all f cs))"
  by (simp add: withApiCircuitBreaker_def)

end
